theory Spec2Isabelle
  imports Complex_Main "HOL-Library.Multiset" "HOL-Library.Char_ord" "HOL-Library.Extended_Nat"
    "HOL-Library.Log_Nat"
begin

section \<open>JavaScript values\<close>

text \<open>
  The program (\<^verbatim>\<open>umami.mjs\<close>) handles values that come from three places: the parsed
  command line (a string, or \<^verbatim>\<open>true\<close> for a flag without a value), the environment
  (a string) and \<^verbatim>\<open>JSON.parse\<close> of a server response. All of them are JSON-shaped
  values; \<^verbatim>\<open>undefined\<close> is the absence of a value.

  Numbers are IEEE doubles in the program. Here a finite number is an exact real
  (no rounding, no overflow); the three non-finite doubles are kept apart, because the
  program tests for them with \<^verbatim>\<open>Number.isFinite\<close>.

  Strings are lists of characters; a character stands for one code unit (those below
  256: the others are not represented).
\<close>

datatype jsnum = NaN | PosInf | NegInf | Fin real

datatype json =
    JNull
  | JBool bool
  | JNum jsnum
  | JStr string
  | JArr "json list"
  | JObj "(string \<times> json) list"

text \<open>\<open>None\<close> is \<^verbatim>\<open>undefined\<close>.\<close>

type_synonym jsval = "json option"

text \<open>
  Every way in which the program stops without producing its output: one constructor for
  each call of \<^verbatim>\<open>die\<close> (which writes the message and exits the process), and
  \<open>TypeError\<close> for the exception a conversion to a primitive raises (nothing in the
  program catches it).
\<close>

datatype error =
    MissingAuth            \<comment> \<open>line 182: "Missing auth: provide --shareId OR --token OR ..."\<close>
  | AmbiguousAuth          \<comment> \<open>line 183: "Ambiguous auth: provide only one of ..."\<close>
  | IncompleteUserPass     \<comment> \<open>line 186: "Missing auth: --username and --password are both required ..."\<close>
  | ShareMissingToken      \<comment> \<open>line 199: "Share response missing token: ..."\<close>
  | ShareMissingWebsiteId  \<comment> \<open>line 201: "Missing websiteId: provide --websiteId or use a shareId ..."\<close>
  | MissingToken           \<comment> \<open>line 211: "Missing token: provide --token or UMAMI_TOKEN."\<close>
  | MissingWebsiteId       \<comment> \<open>lines 212, 231: "Missing websiteId: provide --websiteId or UMAMI_WEBSITE_ID."\<close>
  | LoginMissingToken      \<comment> \<open>line 230: "Login response missing token: ..."\<close>
  | RequestFailed          \<comment> \<open>line 161: "Request failed: ..."\<close>
  | HttpError              \<comment> \<open>line 165: "HTTP <status> ..."\<close>
  | InvalidJson            \<comment> \<open>line 151: "Invalid JSON response ..."\<close>
  | UnexpectedShape        \<comment> \<open>line 277: "Unexpected response shape from metrics endpoint."\<close>
  | TypeError              \<comment> \<open>uncaught exception of \<^verbatim>\<open>String(v)\<close>, \<^verbatim>\<open>Number(v)\<close> or a template literal\<close>

text \<open>
  What the program uses of its platform and cannot be written down here: the URL parser
  (\<open>None\<close> when \<^verbatim>\<open>new URL(s)\<close> throws, else the \<^verbatim>\<open>pathname\<close>), \<^verbatim>\<open>Number\<close> applied to
  a string, and \<^verbatim>\<open>String\<close> applied to a finite number. Every definition below takes them
  as a parameter, and every theorem holds for all of them.
\<close>

record platform =
  url_pathname :: "string \<Rightarrow> string option"
  str_to_num :: "string \<Rightarrow> jsnum"
  num_to_str :: "real \<Rightarrow> string"

text \<open>Truthiness: what \<^verbatim>\<open>!v\<close>, \<^verbatim>\<open>v ? a : b\<close> and \<^verbatim>\<open>a || b\<close> test.\<close>

fun truthy :: "jsval \<Rightarrow> bool" where
  "truthy None = False"
| "truthy (Some JNull) = False"
| "truthy (Some (JBool b)) = b"
| "truthy (Some (JNum n)) = (n \<noteq> NaN \<and> n \<noteq> Fin 0)"
| "truthy (Some (JStr s)) = (s \<noteq> [])"
| "truthy (Some (JArr xs)) = True"
| "truthy (Some (JObj fs)) = True"

text \<open>\<^verbatim>\<open>a ?? b\<close>: \<open>b\<close> only when \<open>a\<close> is \<^verbatim>\<open>undefined\<close> or \<^verbatim>\<open>null\<close>.\<close>

fun nullish :: "jsval \<Rightarrow> jsval \<Rightarrow> jsval" where
  "nullish None b = b"
| "nullish (Some JNull) b = b"
| "nullish (Some v) b = Some v"

text \<open>
  The members of a parsed object are kept in the order of the text. As in
  \<^verbatim>\<open>JSON.parse\<close>, when a key occurs more than once its last occurrence gives the value
  of the own property.
\<close>

fun own_prop :: "(string \<times> json) list \<Rightarrow> string \<Rightarrow> json option" where
  "own_prop fs k = map_of (rev fs) k"

text \<open>
  \<^verbatim>\<open>v?.k\<close> for the keys the program reads (\<^verbatim>\<open>name\<close>, \<^verbatim>\<open>visitors\<close>, \<^verbatim>\<open>token\<close>,
  \<^verbatim>\<open>websiteId\<close>, \<^verbatim>\<open>data\<close>, \<^verbatim>\<open>rows\<close>): none of them is inherited from a prototype, so
  only a parsed object can have one, as an own property.
\<close>

fun get_prop :: "jsval \<Rightarrow> string \<Rightarrow> jsval" where
  "get_prop (Some (JObj fs)) k = own_prop fs k"
| "get_prop v k = None"

subsection \<open>Conversion to string and to number\<close>

fun join_comma :: "string list \<Rightarrow> string" where
  "join_comma [] = []"
| "join_comma [s] = s"
| "join_comma (s # t # ss) = s @ CHR '','' # join_comma (t # ss)"

text \<open>
  \<^verbatim>\<open>String(v)\<close> and \<^verbatim>\<open>`${v}`\<close>. An array is joined with commas, \<^verbatim>\<open>null\<close> elements
  being empty. A parsed object inherits \<^verbatim>\<open>Object.prototype.toString\<close>, unless it has an
  own property \<^verbatim>\<open>toString\<close>: that one is a JSON value, so it is not callable, no method
  gives a primitive, and the conversion throws.
\<close>

fun to_string :: "platform \<Rightarrow> json \<Rightarrow> error + string"
  and elems_to_strings :: "platform \<Rightarrow> json list \<Rightarrow> error + string list" where
  "to_string P JNull = Inr ''null''"
| "to_string P (JBool b) = Inr (if b then ''true'' else ''false'')"
| "to_string P (JNum n) =
     Inr (case n of NaN \<Rightarrow> ''NaN'' | PosInf \<Rightarrow> ''Infinity'' | NegInf \<Rightarrow> ''-Infinity''
          | Fin x \<Rightarrow> num_to_str P x)"
| "to_string P (JStr s) = Inr s"
| "to_string P (JArr xs) =
     (case elems_to_strings P xs of Inl e \<Rightarrow> Inl e | Inr ss \<Rightarrow> Inr (join_comma ss))"
| "to_string P (JObj fs) =
     (if own_prop fs ''toString'' \<noteq> None then Inl TypeError else Inr ''[object Object]'')"
| "elems_to_strings P [] = Inr []"
| "elems_to_strings P (x # xs) =
     (case (if x = JNull then Inr [] else to_string P x) of
        Inl e \<Rightarrow> Inl e
      | Inr s \<Rightarrow> (case elems_to_strings P xs of Inl e \<Rightarrow> Inl e | Inr ss \<Rightarrow> Inr (s # ss)))"

text \<open>
  \<^verbatim>\<open>Number(v)\<close>: an array or an object is first made a primitive. Its \<^verbatim>\<open>valueOf\<close>
  gives no primitive (the inherited one returns the object, an own one is not callable),
  so the result is that of its conversion to a string, read as a number.
\<close>

fun to_number :: "platform \<Rightarrow> json \<Rightarrow> error + jsnum" where
  "to_number P JNull = Inr (Fin 0)"
| "to_number P (JBool b) = Inr (Fin (if b then 1 else 0))"
| "to_number P (JNum n) = Inr n"
| "to_number P (JStr s) = Inr (str_to_num P s)"
| "to_number P v = (case to_string P v of Inl e \<Rightarrow> Inl e | Inr s \<Rightarrow> Inr (str_to_num P s))"

text \<open>\<^verbatim>\<open>Number.isFinite\<close>.\<close>

fun isFinite :: "jsnum \<Rightarrow> bool" where
  "isFinite (Fin x) = True"
| "isFinite n = False"

section \<open>The path normalizer\<close>

text \<open>
  \<^verbatim>\<open>String.prototype.trim\<close> removes white space and line terminators at both ends;
  these are the ones among the code units a character can hold.
\<close>

definition is_ws :: "char \<Rightarrow> bool" where
  "is_ws c \<longleftrightarrow> c \<in> {CHR 0x09, CHR 0x0A, CHR 0x0B, CHR 0x0C, CHR 0x0D, CHR 0x20, CHR 0xA0}"

definition trim :: "string \<Rightarrow> string" where
  "trim s = rev (dropWhile is_ws (rev (dropWhile is_ws s)))"

definition is_alpha :: "char \<Rightarrow> bool" where
  "is_alpha c \<longleftrightarrow> (CHR ''a'' \<le> c \<and> c \<le> CHR ''z'') \<or> (CHR ''A'' \<le> c \<and> c \<le> CHR ''Z'')"

definition is_scheme_char :: "char \<Rightarrow> bool" where
  "is_scheme_char c \<longleftrightarrow>
     is_alpha c \<or> (CHR ''0'' \<le> c \<and> c \<le> CHR ''9'') \<or> c = CHR ''+'' \<or> c = CHR ''.'' \<or> c = CHR ''-''"

text \<open>
  The test \<^verbatim>\<open>/^[a-zA-Z][a-zA-Z0-9+.-]*:\/\//\<close>. The colon is outside the class, so the
  starred class can only end where the first character outside it stands.
\<close>

definition is_full_url :: "string \<Rightarrow> bool" where
  "is_full_url raw =
     (case raw of
        [] \<Rightarrow> False
      | c # cs \<Rightarrow> is_alpha c \<and> take 3 (dropWhile is_scheme_char cs) = ''://'')"

text \<open>\<^verbatim>\<open>raw.indexOf(c)\<close>: the first position of \<open>c\<close>, or \<open>-1\<close>.\<close>

fun index_of :: "char \<Rightarrow> string \<Rightarrow> int" where
  "index_of c [] = -1"
| "index_of c (x # xs) =
     (if x = c then 0 else (let i = index_of c xs in if i < 0 then -1 else i + 1))"

text \<open>Lines 96 to 99: cut at the first \<^verbatim>\<open>?\<close> or \<^verbatim>\<open>#\<close>.\<close>

definition strip_query_hash :: "string \<Rightarrow> string" where
  "strip_query_hash raw =
     (let q = index_of CHR ''?'' raw;
          h = index_of CHR ''#'' raw
      in case sort (filter (\<lambda>i. i \<ge> 0) [q, h]) of
           [] \<Rightarrow> raw
         | cutAt # _ \<Rightarrow> take (nat cutAt) raw)"

text \<open>Line 101, \<^verbatim>\<open>raw.replace(/\/{2,}/g, '/')\<close>: a run of slashes becomes one slash.\<close>

fun collapse_slashes :: "string \<Rightarrow> string" where
  "collapse_slashes (a # b # cs) =
     (if a = CHR ''/'' \<and> b = CHR ''/'' then collapse_slashes (b # cs)
      else a # collapse_slashes (b # cs))"
| "collapse_slashes cs = cs"

definition startsWith_slash :: "string \<Rightarrow> bool" where
  "startsWith_slash raw = (case raw of [] \<Rightarrow> False | c # _ \<Rightarrow> c = CHR ''/'')"

definition endsWith_slash :: "string \<Rightarrow> bool" where
  "endsWith_slash raw = (raw \<noteq> [] \<and> last raw = CHR ''/'')"

definition normalizePath :: "platform \<Rightarrow> jsval \<Rightarrow> error + string" where
  "normalizePath P name =
     (case name of
        None \<Rightarrow> Inr ''/''
      | Some JNull \<Rightarrow> Inr ''/''
      | Some v \<Rightarrow>
          (case to_string P v of
             Inl e \<Rightarrow> Inl e
           | Inr s \<Rightarrow>
               (let raw = trim s in
                if raw = [] then Inr ''/''
                else
                  let raw = (if is_full_url raw
                             then (case url_pathname P raw of
                                     Some p \<Rightarrow> (if p = [] then ''/'' else p)
                                   | None \<Rightarrow> raw)
                             else raw);
                      raw = strip_query_hash raw;
                      raw = collapse_slashes raw;
                      raw = (if \<not> startsWith_slash raw then ''/'' @ raw else raw);
                      raw = (if length raw > 1 \<and> endsWith_slash raw then raw
                             else if raw \<noteq> ''/'' then raw @ ''/'' else raw);
                      raw = (if raw = [] then ''/'' else raw)
                  in Inr raw)))"

section \<open>The auth resolver\<close>

text \<open>
  The keys of the parsed command line that \<^verbatim>\<open>resolveAuthArgs\<close> reads (a string, or
  \<^verbatim>\<open>true\<close> for a flag given without a value), and the environment variables it falls
  back to (strings).
\<close>

record args =
  arg_shareId :: jsval
  arg_username :: jsval
  arg_password :: jsval
  arg_token :: jsval

record env =
  UMAMI_SHARE_ID :: "string option"
  UMAMI_USERNAME :: "string option"
  UMAMI_PASSWORD :: "string option"
  UMAMI_TOKEN :: "string option"

datatype mode = Share | Token | UserPass

record auth =
  mode :: mode
  shareId :: jsval
  username :: jsval
  password :: jsval
  token :: jsval

text \<open>\<^verbatim>\<open>xs.filter(Boolean)\<close> on a list of mode names and \<^verbatim>\<open>null\<close>s.\<close>

definition filter_Boolean :: "mode option list \<Rightarrow> mode list" where
  "filter_Boolean xs = map the (filter (\<lambda>m. m \<noteq> None) xs)"

definition resolveAuthArgs :: "args \<Rightarrow> env \<Rightarrow> error + auth" where
  "resolveAuthArgs a e =
     (let shareId = nullish (arg_shareId a) (map_option JStr (UMAMI_SHARE_ID e));
          username = nullish (arg_username a) (map_option JStr (UMAMI_USERNAME e));
          password = nullish (arg_password a) (map_option JStr (UMAMI_PASSWORD e));
          token = nullish (arg_token a) (map_option JStr (UMAMI_TOKEN e));
          modes = filter_Boolean
            [if truthy shareId then Some Share else None,
             if truthy token then Some Token else None,
             if truthy username \<or> truthy password then Some UserPass else None]
      in if length modes = 0 then Inl MissingAuth
         else if length modes > 1 then Inl AmbiguousAuth
         else if modes ! 0 = UserPass \<and> (\<not> truthy username \<or> \<not> truthy password)
           then Inl IncompleteUserPass
         else Inr \<lparr>mode = modes ! 0, shareId = shareId, username = username,
                    password = password, token = token\<rparr>)"

section \<open>The credential exchanger\<close>

text \<open>The template literal \<^verbatim>\<open>`Bearer ${v}`\<close>.\<close>

definition bearer :: "platform \<Rightarrow> jsval \<Rightarrow> error + string" where
  "bearer P v =
     (case v of
        None \<Rightarrow> Inr ''Bearer undefined''
      | Some j \<Rightarrow> (case to_string P j of Inl e \<Rightarrow> Inl e | Inr s \<Rightarrow> Inr (''Bearer '' @ s)))"

text \<open>
  The two requests of \<^verbatim>\<open>getAuthHeaders\<close>. Each field is the outcome of building the
  URL, \<^verbatim>\<open>fetchOrDie\<close> and \<^verbatim>\<open>readJsonStrict\<close>: the error the process dies with, or the
  parsed body.
\<close>

record auth_server =
  share_lookup :: "jsval \<Rightarrow> error + json"
  login :: "jsval \<Rightarrow> jsval \<Rightarrow> error + json"

record credentials =
  websiteId :: jsval
  headers :: "(string \<times> jsval) list"

definition getAuthHeaders :: "platform \<Rightarrow> auth_server \<Rightarrow> auth \<Rightarrow> jsval \<Rightarrow> error + credentials" where
  "getAuthHeaders P srv au websiteIdArg =
     (if mode au = Share then
        (case share_lookup srv (shareId au) of
           Inl e \<Rightarrow> Inl e
         | Inr js \<Rightarrow>
             (let shareToken = get_prop (Some js) ''token'';
                  shareWebsiteId = get_prop (Some js) ''websiteId''
              in if \<not> truthy shareToken then Inl ShareMissingToken
                 else let wid = nullish websiteIdArg shareWebsiteId
                      in if \<not> truthy wid then Inl ShareMissingWebsiteId
                         else Inr \<lparr>websiteId = wid,
                                    headers = [(''x-umami-share-token'', shareToken)]\<rparr>))
      else if mode au = Token then
        (if \<not> truthy (token au) then Inl MissingToken
         else if \<not> truthy websiteIdArg then Inl MissingWebsiteId
         else (case bearer P (token au) of
                 Inl e \<Rightarrow> Inl e
               | Inr s \<Rightarrow> Inr \<lparr>websiteId = websiteIdArg,
                                headers = [(''authorization'', Some (JStr s))]\<rparr>))
      else
        (case login srv (username au) (password au) of
           Inl e \<Rightarrow> Inl e
         | Inr js \<Rightarrow>
             (let tok = get_prop (Some js) ''token''
              in if \<not> truthy tok then Inl LoginMissingToken
                 else if \<not> truthy websiteIdArg then Inl MissingWebsiteId
                 else (case bearer P tok of
                         Inl e \<Rightarrow> Inl e
                       | Inr s \<Rightarrow> Inr \<lparr>websiteId = websiteIdArg,
                                        headers = [(''authorization'', Some (JStr s))]\<rparr>))))"

section \<open>Pagination and aggregation\<close>

text \<open>\<^verbatim>\<open>Array.isArray(v)\<close>, with the array.\<close>

fun as_array :: "jsval \<Rightarrow> json list option" where
  "as_array (Some (JArr xs)) = Some xs"
| "as_array v = None"

text \<open>\<open>None\<close> is the \<^verbatim>\<open>null\<close> that \<^verbatim>\<open>extractRows\<close> returns for an unknown shape.\<close>

definition extractRows :: "json \<Rightarrow> json list option" where
  "extractRows js =
     (case as_array (Some js) of
        Some xs \<Rightarrow> Some xs
      | None \<Rightarrow>
          (if truthy (Some js) \<and> as_array (get_prop (Some js) ''data'') \<noteq> None
           then as_array (get_prop (Some js) ''data'')
           else if truthy (Some js) \<and> as_array (get_prop (Some js) ''rows'') \<noteq> None
           then as_array (get_prop (Some js) ''rows'')
           else None))"

text \<open>
  \<^verbatim>\<open>totals\<close> is an object without prototype that maps a path to a number. Only finite
  numbers are ever added, and sums are exact here, so its values are reals.
\<close>

type_synonym totals = "string \<rightharpoonup> real"

text \<open>Line 282: \<^verbatim>\<open>Number(row?.visitors ?? 0)\<close>.\<close>

definition row_visitors :: "platform \<Rightarrow> json \<Rightarrow> error + jsnum" where
  "row_visitors P row =
     (case nullish (get_prop (Some row) ''visitors'') (Some (JNum (Fin 0))) of
        None \<Rightarrow> Inr NaN
      | Some v \<Rightarrow> to_number P v)"

text \<open>The body of the inner loop, lines 281 to 285, for one row.\<close>

definition accumulate_row :: "platform \<Rightarrow> totals \<Rightarrow> json \<Rightarrow> error + totals" where
  "accumulate_row P t row =
     (let name = get_prop (Some row) ''name'' in
      case row_visitors P row of
        Inl e \<Rightarrow> Inl e
      | Inr visitors \<Rightarrow>
          (case visitors of
             Fin v \<Rightarrow>
               (case normalizePath P name of
                  Inl e \<Rightarrow> Inl e
                | Inr path \<Rightarrow>
                    Inr (t(path \<mapsto> (case t path of None \<Rightarrow> 0 | Some x \<Rightarrow> x) + v)))
           | _ \<Rightarrow> Inr t))"

text \<open>The inner loop, lines 280 to 286, over the rows of one page.\<close>

fun accumulate :: "platform \<Rightarrow> totals \<Rightarrow> json list \<Rightarrow> error + totals" where
  "accumulate P t [] = Inr t"
| "accumulate P t (row # rows) =
     (case accumulate_row P t row of
        Inl e \<Rightarrow> Inl e
      | Inr t' \<Rightarrow> accumulate P t' rows)"

text \<open>
  The cursor. \<^verbatim>\<open>offset\<close> is a double that starts at 0 and \<^verbatim>\<open>limit\<close> is a double that
  line 259 has found to be a positive integer, so every offset is a natural number or
  \<^verbatim>\<open>Infinity\<close>. \<^verbatim>\<open>offset += limit\<close> is the sum of doubles: the exact sum rounded to
  the nearest double, the one with an even significand when two are as near, and
  \<^verbatim>\<open>Infinity\<close> from \<open>2 ^ 1024\<close> on. Every natural number up to \<open>2 ^ 53\<close> is a double; a
  greater one of \<open>53 + e\<close> bits lies between two neighbouring doubles that are multiples
  of \<open>2 ^ e\<close>.
\<close>

definition round_double :: "nat \<Rightarrow> enat" where
  "round_double n =
     (if n \<le> 2 ^ 53 then enat n
      else let e = floorlog 2 n - 53;
               q = n div 2 ^ e;
               r = n mod 2 ^ e;
               m = (if 2 ^ e < 2 * r \<or> (2 * r = 2 ^ e \<and> odd q) then q + 1 else q)
           in if 2 ^ 1024 \<le> m * 2 ^ e then \<infinity> else enat (m * 2 ^ e))"

definition offset_plus :: "enat \<Rightarrow> nat \<Rightarrow> enat" where
  "offset_plus offset limit =
     (case offset of
        enat x \<Rightarrow> round_double (x + limit)
      | \<infinity> \<Rightarrow> \<infinity>)"

text \<open>
  The loop of lines 267 to 287. \<open>fetchPage k offset\<close> is the outcome of lines 268 to 275
  for the request number \<open>k\<close> (the first one is number 0), made with that offset: the URL
  is built from the fixed arguments and the offset, then \<^verbatim>\<open>fetchOrDie\<close> and
  \<^verbatim>\<open>readJsonStrict\<close> give an error or the parsed body. The server answers each request as
  it likes, also when an offset comes again; \<open>k\<close> is no variable of the program, it is the
  state of the world. \<open>limit\<close> is the page size. The result is the state at the
  \<^verbatim>\<open>break\<close>: the offset and the totals. A loop that never leaves is \<open>None\<close>.
\<close>

partial_function (option)
  pageLoop :: "platform \<Rightarrow> (nat \<Rightarrow> enat \<Rightarrow> error + json) \<Rightarrow> nat \<Rightarrow> nat \<Rightarrow> enat \<Rightarrow> totals
               \<Rightarrow> (error + enat \<times> totals) option" where
  "pageLoop P fetchPage limit k offset t =
     (case fetchPage k offset of
        Inl e \<Rightarrow> Some (Inl e)
      | Inr js \<Rightarrow>
          (case extractRows js of
             None \<Rightarrow> Some (Inl UnexpectedShape)
           | Some rows \<Rightarrow>
               if length rows = 0 then Some (Inr (offset, t))
               else (case accumulate P t rows of
                       Inl e \<Rightarrow> Some (Inl e)
                     | Inr t' \<Rightarrow>
                         pageLoop P fetchPage limit (Suc k) (offset_plus offset limit) t')))"

section \<open>The specification's vocabulary\<close>

text \<open>
  The specification speaks of values that are \<^emph>\<open>present\<close>. An input is taken from the
  argument, or from the environment when the argument is absent; it is present when that
  value is truthy (a non-empty string, or \<^verbatim>\<open>true\<close>).
\<close>

definition arg_or_env :: "jsval \<Rightarrow> string option \<Rightarrow> jsval" where
  "arg_or_env a e = (if a = None \<or> a = Some JNull then map_option JStr e else a)"

definition share_present :: "args \<Rightarrow> env \<Rightarrow> bool" where
  "share_present a e = truthy (arg_or_env (arg_shareId a) (UMAMI_SHARE_ID e))"

definition token_present :: "args \<Rightarrow> env \<Rightarrow> bool" where
  "token_present a e = truthy (arg_or_env (arg_token a) (UMAMI_TOKEN e))"

definition username_present :: "args \<Rightarrow> env \<Rightarrow> bool" where
  "username_present a e = truthy (arg_or_env (arg_username a) (UMAMI_USERNAME e))"

definition password_present :: "args \<Rightarrow> env \<Rightarrow> bool" where
  "password_present a e = truthy (arg_or_env (arg_password a) (UMAMI_PASSWORD e))"

definition userpass_present :: "args \<Rightarrow> env \<Rightarrow> bool" where
  "userpass_present a e = (username_present a e \<or> password_present a e)"

text \<open>The number of present modes.\<close>

definition num_present :: "args \<Rightarrow> env \<Rightarrow> nat" where
  "num_present a e =
     (if share_present a e then 1 else 0) + (if token_present a e then 1 else 0) +
     (if userpass_present a e then 1 else 0)"

subsection \<open>Concrete inputs\<close>

text \<open>
  An instance of the platform for the concrete evaluations below, which agrees with the
  platform wherever they ask it. Its URL parser is asked a single URL,
  \<^verbatim>\<open>https://h/foo?q=1\<close>, whose path is \<^verbatim>\<open>/foo\<close>. Its \<^verbatim>\<open>Number\<close> is asked \<^verbatim>\<open>"abc"\<close>, which
  is not a number, and \<^verbatim>\<open>"7"\<close>. Its \<^verbatim>\<open>String\<close> is asked no number.
\<close>

definition examplePlatform :: platform where
  "examplePlatform =
     \<lparr>url_pathname = (\<lambda>s. if s = ''https://h/foo?q=1'' then Some ''/foo'' else None),
      str_to_num = (\<lambda>s. if s = ''7'' then Fin 7 else NaN),
      num_to_str = (\<lambda>x. if x = 7 then ''7'' else ''0'')\<rparr>"

definition no_args :: args where
  "no_args = \<lparr>arg_shareId = None, arg_username = None, arg_password = None, arg_token = None\<rparr>"

definition no_env :: env where
  "no_env = \<lparr>UMAMI_SHARE_ID = None, UMAMI_USERNAME = None, UMAMI_PASSWORD = None,
             UMAMI_TOKEN = None\<rparr>"

text \<open>
  A server whose share endpoint answers \<^verbatim>\<open>{"token": "T", "websiteId": "W"}\<close> (or the
  given body), and the resolved auth of \<^verbatim>\<open>--shareId S1\<close>.
\<close>

definition shareServer :: "json \<Rightarrow> auth_server" where
  "shareServer body = \<lparr>share_lookup = (\<lambda>sid. Inr body), login = (\<lambda>u p. Inl RequestFailed)\<rparr>"

definition shareBodyTW :: json where
  "shareBodyTW = JObj [(''token'', JStr ''T''), (''websiteId'', JStr ''W'')]"

definition shareAuthS1 :: auth where
  "shareAuthS1 = \<lparr>mode = Share, shareId = Some (JStr ''S1''), username = None, password = None,
                  token = None\<rparr>"

text \<open>The row \<^verbatim>\<open>{"name": n, "visitors": v}\<close>.\<close>

definition mk_row :: "string \<Rightarrow> json \<Rightarrow> json" where
  "mk_row n v = JObj [(''name'', JStr n), (''visitors'', v)]"

text \<open>
  A path key, the result of the normalizer: it begins and ends with a slash, has no
  \<^verbatim>\<open>?\<close> and no \<^verbatim>\<open>#\<close>, and no two slashes in a row.
\<close>

fun no_double_slash :: "string \<Rightarrow> bool" where
  "no_double_slash (a # b # cs) = (\<not> (a = CHR ''/'' \<and> b = CHR ''/'') \<and> no_double_slash (b # cs))"
| "no_double_slash cs = True"

definition path_key :: "string \<Rightarrow> bool" where
  "path_key y \<longleftrightarrow>
     y \<noteq> [] \<and> hd y = CHR ''/'' \<and> last y = CHR ''/'' \<and>
     CHR ''?'' \<notin> set y \<and> CHR ''#'' \<notin> set y \<and> no_double_slash y"

text \<open>
  A value whose conversion to a string cannot throw: no object with an own property
  \<^verbatim>\<open>toString\<close>, and no array with such an element.
\<close>

fun stringable :: "json \<Rightarrow> bool"
  and stringable_elems :: "json list \<Rightarrow> bool" where
  "stringable (JArr xs) = stringable_elems xs"
| "stringable (JObj fs) = (own_prop fs ''toString'' = None)"
| "stringable v = True"
| "stringable_elems [] = True"
| "stringable_elems (x # xs) = (stringable x \<and> stringable_elems xs)"

text \<open>A row whose \<^verbatim>\<open>name\<close> and \<^verbatim>\<open>visitors\<close> are absent or such values.\<close>

definition convertible_row :: "json \<Rightarrow> bool" where
  "convertible_row row =
     ((case get_prop (Some row) ''name'' of None \<Rightarrow> True | Some v \<Rightarrow> stringable v) \<and>
      (case get_prop (Some row) ''visitors'' of None \<Rightarrow> True | Some v \<Rightarrow> stringable v))"

text \<open>A row that the inner loop skips: its visitors convert to a number that is not finite.\<close>

definition skipped_row :: "platform \<Rightarrow> json \<Rightarrow> bool" where
  "skipped_row P row = (case row_visitors P row of Inl e \<Rightarrow> False | Inr n \<Rightarrow> \<not> isFinite n)"

text \<open>A row that counts and whose number of visitors is negative.\<close>

definition negative_row :: "platform \<Rightarrow> json \<Rightarrow> bool" where
  "negative_row P row = (case row_visitors P row of Inr (Fin v) \<Rightarrow> v < 0 | _ \<Rightarrow> False)"

text \<open>The total of a path, \<^verbatim>\<open>totals[path] ?? 0\<close>.\<close>

definition total_of :: "totals \<Rightarrow> string \<Rightarrow> real" where
  "total_of t p = (case t p of None \<Rightarrow> 0 | Some x \<Rightarrow> x)"

text \<open>What a row adds to the total of a path.\<close>

definition row_adds :: "platform \<Rightarrow> json \<Rightarrow> string \<Rightarrow> real" where
  "row_adds P row p =
     (case row_visitors P row of
        Inr (Fin v) \<Rightarrow> (if normalizePath P (get_prop (Some row) ''name'') = Inr p then v else 0)
      | _ \<Rightarrow> 0)"

text \<open>
  One row on the state of a run, which stays an error once a conversion has thrown.
\<close>

definition row_step :: "platform \<Rightarrow> json \<Rightarrow> error + totals \<Rightarrow> error + totals" where
  "row_step P row st = (case st of Inl e \<Rightarrow> Inl e | Inr t \<Rightarrow> accumulate_row P t row)"



text \<open>
  What the outer loop does to the totals over a sequence of pages: the inner loop on
  each page in turn, until a conversion throws.
\<close>

fun accumulatePages :: "platform \<Rightarrow> totals \<Rightarrow> json list list \<Rightarrow> error + totals" where
  "accumulatePages P t [] = Inr t"
| "accumulatePages P t (rows # pages) =
     (case accumulate P t rows of
        Inl e \<Rightarrow> Inl e
      | Inr t' \<Rightarrow> accumulatePages P t' pages)"




text \<open>
  A server whose first page is
  \<^verbatim>\<open>[{"name": "/a", "visitors": 3}, {"name": "/a", "visitors": {"toString": 1}}]\<close>.
\<close>

definition objectVisitorsServer :: "nat \<Rightarrow> enat \<Rightarrow> error + json" where
  "objectVisitorsServer k off =
     (if off = 0
      then Inr (JArr [mk_row ''/a'' (JNum (Fin 3)),
                      mk_row ''/a'' (JObj [(''toString'', JNum (Fin 1))])])
      else Inr (JArr []))"

section \<open>Properties of the auth resolver\<close>

lemma nullish_arg_or_env: "nullish a b = (if a = None \<or> a = Some JNull then b else a)"
  by (cases "(a, b)" rule: nullish.cases) auto

text \<open>The resolver, case by case, in the specification's vocabulary.\<close>

lemma resolveAuthArgs_cases:
  "resolveAuthArgs a e =
     (if num_present a e = 0 then Inl MissingAuth
      else if num_present a e > 1 then Inl AmbiguousAuth
      else if share_present a e then
        Inr \<lparr>mode = Share, shareId = arg_or_env (arg_shareId a) (UMAMI_SHARE_ID e),
             username = arg_or_env (arg_username a) (UMAMI_USERNAME e),
             password = arg_or_env (arg_password a) (UMAMI_PASSWORD e),
             token = arg_or_env (arg_token a) (UMAMI_TOKEN e)\<rparr>
      else if token_present a e then
        Inr \<lparr>mode = Token, shareId = arg_or_env (arg_shareId a) (UMAMI_SHARE_ID e),
             username = arg_or_env (arg_username a) (UMAMI_USERNAME e),
             password = arg_or_env (arg_password a) (UMAMI_PASSWORD e),
             token = arg_or_env (arg_token a) (UMAMI_TOKEN e)\<rparr>
      else if username_present a e \<and> password_present a e then
        Inr \<lparr>mode = UserPass, shareId = arg_or_env (arg_shareId a) (UMAMI_SHARE_ID e),
             username = arg_or_env (arg_username a) (UMAMI_USERNAME e),
             password = arg_or_env (arg_password a) (UMAMI_PASSWORD e),
             token = arg_or_env (arg_token a) (UMAMI_TOKEN e)\<rparr>
      else Inl IncompleteUserPass)"
  unfolding resolveAuthArgs_def num_present_def share_present_def token_present_def
    userpass_present_def username_present_def password_present_def filter_Boolean_def
    arg_or_env_def nullish_arg_or_env Let_def
  by (simp split: if_splits)

lemmas present_defs =
  num_present_def share_present_def token_present_def userpass_present_def
  username_present_def password_present_def arg_or_env_def no_args_def no_env_def

text \<open>
  Claim C1. Auth resolution is mutually exclusive. With no mode present the resolver
  fails with the missing-auth error, with more than one present it fails with the
  ambiguous-auth error, and with exactly one present it succeeds and reports that mode
  (for userpass only when username and password are both present; otherwise it fails).
  Whenever it succeeds, exactly one mode is present and the mode reported is that one:
  it never picks among several.
\<close>

theorem resolveAuthArgs_mutually_exclusive:
  "(num_present a e = 0 \<longrightarrow> resolveAuthArgs a e = Inl MissingAuth) \<and>
   (num_present a e > 1 \<longrightarrow> resolveAuthArgs a e = Inl AmbiguousAuth) \<and>
   (num_present a e = 1 \<and> share_present a e \<longrightarrow>
      (\<exists>au. resolveAuthArgs a e = Inr au \<and> mode au = Share)) \<and>
   (num_present a e = 1 \<and> token_present a e \<longrightarrow>
      (\<exists>au. resolveAuthArgs a e = Inr au \<and> mode au = Token)) \<and>
   (num_present a e = 1 \<and> userpass_present a e \<longrightarrow>
      (if username_present a e \<and> password_present a e
       then \<exists>au. resolveAuthArgs a e = Inr au \<and> mode au = UserPass
       else \<exists>err. resolveAuthArgs a e = Inl err)) \<and>
   (\<forall>au. resolveAuthArgs a e = Inr au \<longrightarrow>
      num_present a e = 1 \<and>
      (mode au = Share \<longleftrightarrow> share_present a e) \<and>
      (mode au = Token \<longleftrightarrow> token_present a e) \<and>
      (mode au = UserPass \<longleftrightarrow> userpass_present a e))"
  unfolding resolveAuthArgs_cases
  by (auto simp: num_present_def userpass_present_def split: if_splits)

theorem resolveAuthArgs_mutually_exclusive_witness:
  "resolveAuthArgs no_args no_env = Inl MissingAuth \<and>
   resolveAuthArgs (no_args\<lparr>arg_shareId := Some (JStr ''S1'')\<rparr>)
     (no_env\<lparr>UMAMI_TOKEN := Some ''T''\<rparr>) = Inl AmbiguousAuth \<and>
   (\<exists>au. resolveAuthArgs (no_args\<lparr>arg_shareId := Some (JStr ''S1'')\<rparr>) no_env = Inr au \<and>
      mode au = Share) \<and>
   (\<exists>au. resolveAuthArgs no_args (no_env\<lparr>UMAMI_TOKEN := Some ''T''\<rparr>) = Inr au \<and>
      mode au = Token) \<and>
   (\<exists>au. resolveAuthArgs (no_args\<lparr>arg_username := Some (JStr ''u'')\<rparr>)
      (no_env\<lparr>UMAMI_PASSWORD := Some ''p''\<rparr>) = Inr au \<and> mode au = UserPass)"
proof -
  let ?S = "no_args\<lparr>arg_shareId := Some (JStr ''S1'')\<rparr>"
  let ?U = "no_args\<lparr>arg_username := Some (JStr ''u'')\<rparr>"
  let ?T = "no_env\<lparr>UMAMI_TOKEN := Some ''T''\<rparr>"
  let ?P = "no_env\<lparr>UMAMI_PASSWORD := Some ''p''\<rparr>"
  have "num_present no_args no_env = 0"
    by (simp add: present_defs)
  then have 1: "resolveAuthArgs no_args no_env = Inl MissingAuth"
    using resolveAuthArgs_mutually_exclusive [of no_args no_env] by blast
  have "num_present ?S ?T > 1"
    by (simp add: present_defs)
  then have 2: "resolveAuthArgs ?S ?T = Inl AmbiguousAuth"
    using resolveAuthArgs_mutually_exclusive [of ?S ?T] by blast
  have "num_present ?S no_env = 1 \<and> share_present ?S no_env"
    by (simp add: present_defs)
  then have 3: "\<exists>au. resolveAuthArgs ?S no_env = Inr au \<and> mode au = Share"
    using resolveAuthArgs_mutually_exclusive [of ?S no_env] by blast
  have "num_present no_args ?T = 1 \<and> token_present no_args ?T"
    by (simp add: present_defs)
  then have 4: "\<exists>au. resolveAuthArgs no_args ?T = Inr au \<and> mode au = Token"
    using resolveAuthArgs_mutually_exclusive [of no_args ?T] by blast
  have "num_present ?U ?P = 1 \<and> userpass_present ?U ?P \<and> username_present ?U ?P \<and>
        password_present ?U ?P"
    by (simp add: present_defs)
  then have 5: "\<exists>au. resolveAuthArgs ?U ?P = Inr au \<and> mode au = UserPass"
    using resolveAuthArgs_mutually_exclusive [of ?U ?P] by presburger
  from 1 2 3 4 5 show ?thesis
    by blast
qed

text \<open>
  Claim C9. When userpass is the only present mode and one of username and password is
  not present, the resolver fails with the incomplete-credentials error, which is neither
  the missing-auth nor the ambiguous-auth error.
\<close>

theorem resolveAuthArgs_incomplete_userpass:
  assumes "userpass_present a e" and "\<not> share_present a e" and "\<not> token_present a e"
    and "\<not> (username_present a e \<and> password_present a e)"
  shows "resolveAuthArgs a e = Inl IncompleteUserPass \<and>
         IncompleteUserPass \<noteq> MissingAuth \<and> IncompleteUserPass \<noteq> AmbiguousAuth"
  using assms unfolding resolveAuthArgs_cases
  by (simp add: num_present_def)

theorem resolveAuthArgs_incomplete_userpass_witness:
  "resolveAuthArgs (no_args\<lparr>arg_username := Some (JStr ''u'')\<rparr>) no_env = Inl IncompleteUserPass \<and>
   resolveAuthArgs no_args (no_env\<lparr>UMAMI_PASSWORD := Some ''p''\<rparr>) = Inl IncompleteUserPass"
proof -
  let ?U = "no_args\<lparr>arg_username := Some (JStr ''u'')\<rparr>"
  let ?P = "no_env\<lparr>UMAMI_PASSWORD := Some ''p''\<rparr>"
  have u: "userpass_present ?U no_env" "\<not> share_present ?U no_env" "\<not> token_present ?U no_env"
    "\<not> (username_present ?U no_env \<and> password_present ?U no_env)"
    by (simp_all add: present_defs)
  have p: "userpass_present no_args ?P" "\<not> share_present no_args ?P" "\<not> token_present no_args ?P"
    "\<not> (username_present no_args ?P \<and> password_present no_args ?P)"
    by (simp_all add: present_defs)
  show ?thesis
    using resolveAuthArgs_incomplete_userpass [OF u] resolveAuthArgs_incomplete_userpass [OF p]
    by blast
qed

lemma resolve_token_empty:
  "arg_token a = Some (JStr '''') \<Longrightarrow>
     resolveAuthArgs a (e\<lparr>UMAMI_TOKEN := x\<rparr>) = resolveAuthArgs a e \<and> \<not> token_present a e"
  by (simp add: resolveAuthArgs_def token_present_def arg_or_env_def)

lemma resolve_shareId_empty:
  "arg_shareId a = Some (JStr '''') \<Longrightarrow>
     resolveAuthArgs a (e\<lparr>UMAMI_SHARE_ID := x\<rparr>) = resolveAuthArgs a e \<and> \<not> share_present a e"
  by (simp add: resolveAuthArgs_def share_present_def arg_or_env_def)

lemma resolve_username_empty:
  "arg_username a = Some (JStr '''') \<Longrightarrow>
     resolveAuthArgs a (e\<lparr>UMAMI_USERNAME := x\<rparr>) = resolveAuthArgs a e \<and> \<not> username_present a e"
  by (simp add: resolveAuthArgs_def username_present_def arg_or_env_def)

lemma resolve_password_empty:
  "arg_password a = Some (JStr '''') \<Longrightarrow>
     resolveAuthArgs a (e\<lparr>UMAMI_PASSWORD := x\<rparr>) = resolveAuthArgs a e \<and> \<not> password_present a e"
  by (simp add: resolveAuthArgs_def password_present_def arg_or_env_def)

lemma resolve_token_empty_example:
  "arg_token a = Some (JStr '''') \<Longrightarrow> arg_shareId a = None \<Longrightarrow> arg_username a = None \<Longrightarrow>
    arg_password a = None \<Longrightarrow> UMAMI_SHARE_ID e = None \<Longrightarrow> UMAMI_USERNAME e = None \<Longrightarrow>
    UMAMI_PASSWORD e = None \<Longrightarrow> resolveAuthArgs a e = Inl MissingAuth"
  by (simp add: resolveAuthArgs_def filter_Boolean_def)

text \<open>
  Claim C10. An auth argument given as the empty string overrides its environment
  fallback: the result is the same whatever the environment holds for it, and the value
  is not present. So a token given as \<^verbatim>\<open>""\<close>, with a non-empty token in the environment
  and nothing else, leads to the missing-auth error and not to token mode.
\<close>

theorem resolveAuthArgs_empty_argument:
  "(arg_token a = Some (JStr '''') \<longrightarrow>
      resolveAuthArgs a (e\<lparr>UMAMI_TOKEN := x\<rparr>) = resolveAuthArgs a e \<and> \<not> token_present a e) \<and>
   (arg_shareId a = Some (JStr '''') \<longrightarrow>
      resolveAuthArgs a (e\<lparr>UMAMI_SHARE_ID := x\<rparr>) = resolveAuthArgs a e \<and> \<not> share_present a e) \<and>
   (arg_username a = Some (JStr '''') \<longrightarrow>
      resolveAuthArgs a (e\<lparr>UMAMI_USERNAME := x\<rparr>) = resolveAuthArgs a e \<and>
      \<not> username_present a e) \<and>
   (arg_password a = Some (JStr '''') \<longrightarrow>
      resolveAuthArgs a (e\<lparr>UMAMI_PASSWORD := x\<rparr>) = resolveAuthArgs a e \<and>
      \<not> password_present a e) \<and>
   (arg_token a = Some (JStr '''') \<and> arg_shareId a = None \<and> arg_username a = None \<and>
    arg_password a = None \<and> UMAMI_SHARE_ID e = None \<and> UMAMI_USERNAME e = None \<and>
    UMAMI_PASSWORD e = None \<and> UMAMI_TOKEN e = Some t \<and> t \<noteq> [] \<longrightarrow>
      resolveAuthArgs a e = Inl MissingAuth)"
  using resolve_token_empty [where a = a and e = e and x = x] resolve_shareId_empty [where a = a and e = e and x = x]
    resolve_username_empty [where a = a and e = e and x = x] resolve_password_empty [where a = a and e = e and x = x]
    resolve_token_empty_example [where a = a and e = e]
  by blast

theorem resolveAuthArgs_empty_argument_witness:
  "resolveAuthArgs (no_args\<lparr>arg_token := Some (JStr '''')\<rparr>) (no_env\<lparr>UMAMI_TOKEN := Some ''T''\<rparr>)
     = Inl MissingAuth \<and>
   \<not> token_present (no_args\<lparr>arg_token := Some (JStr '''')\<rparr>) (no_env\<lparr>UMAMI_TOKEN := Some ''T''\<rparr>) \<and>
   token_present no_args (no_env\<lparr>UMAMI_TOKEN := Some ''T''\<rparr>)"
proof -
  let ?A = "no_args\<lparr>arg_token := Some (JStr '''')\<rparr>"
  let ?E = "no_env\<lparr>UMAMI_TOKEN := Some ''T''\<rparr>"
  have h: "arg_token ?A = Some (JStr '''') \<and> arg_shareId ?A = None \<and> arg_username ?A = None \<and>
    arg_password ?A = None \<and> UMAMI_SHARE_ID ?E = None \<and> UMAMI_USERNAME ?E = None \<and>
    UMAMI_PASSWORD ?E = None \<and> UMAMI_TOKEN ?E = Some ''T'' \<and> ''T'' \<noteq> []"
    by (simp add: no_args_def no_env_def)
  have t: "token_present no_args ?E"
    by (simp add: present_defs)
  show ?thesis
    using resolveAuthArgs_empty_argument [where a = ?A and e = ?E and t = "''T''"] h t
    by blast
qed

section \<open>Properties of the path normalizer\<close>

lemmas normalize_defs =
  normalizePath_def trim_def is_ws_def is_full_url_def is_alpha_def is_scheme_char_def
  strip_query_hash_def startsWith_slash_def endsWith_slash_def

text \<open>
  Claim C5. The normalizer maps \<^verbatim>\<open>foo\<close>, \<^verbatim>\<open>/foo\<close>, \<^verbatim>\<open>/foo/\<close>, \<^verbatim>\<open>https://h/foo?q=1\<close> and
  \<^verbatim>\<open>//foo//\<close> to the key \<^verbatim>\<open>/foo/\<close>, and the empty string, \<^verbatim>\<open>null\<close>, \<^verbatim>\<open>undefined\<close> and
  \<^verbatim>\<open>/\<close> to \<^verbatim>\<open>/\<close>. The URL parser is the platform's: the path it gives for
  \<^verbatim>\<open>https://h/foo?q=1\<close> is \<^verbatim>\<open>/foo\<close>.
\<close>

theorem normalizePath_examples:
  assumes "url_pathname P ''https://h/foo?q=1'' = Some ''/foo''"
  shows "normalizePath P (Some (JStr ''foo'')) = Inr ''/foo/'' \<and>
         normalizePath P (Some (JStr ''/foo'')) = Inr ''/foo/'' \<and>
         normalizePath P (Some (JStr ''/foo/'')) = Inr ''/foo/'' \<and>
         normalizePath P (Some (JStr ''https://h/foo?q=1'')) = Inr ''/foo/'' \<and>
         normalizePath P (Some (JStr ''//foo//'')) = Inr ''/foo/'' \<and>
         normalizePath P (Some (JStr '''')) = Inr ''/'' \<and>
         normalizePath P (Some JNull) = Inr ''/'' \<and>
         normalizePath P None = Inr ''/'' \<and>
         normalizePath P (Some (JStr ''/'')) = Inr ''/''"
proof -
  have 1: "normalizePath P (Some (JStr ''foo'')) = Inr ''/foo/''"
    by (simp add: normalize_defs)
  have 2: "normalizePath P (Some (JStr ''/foo'')) = Inr ''/foo/''"
    by (simp add: normalize_defs)
  have 3: "normalizePath P (Some (JStr ''/foo/'')) = Inr ''/foo/''"
    by (simp add: normalize_defs)
  have 4: "normalizePath P (Some (JStr ''https://h/foo?q=1'')) = Inr ''/foo/''"
    using assms by (simp add: normalize_defs)
  have 5: "normalizePath P (Some (JStr ''//foo//'')) = Inr ''/foo/''"
    by (simp add: normalize_defs)
  have 6: "normalizePath P (Some (JStr '''')) = Inr ''/''"
    by (simp add: normalize_defs)
  have 7: "normalizePath P (Some JNull) = Inr ''/''" "normalizePath P None = Inr ''/''"
    by (simp_all add: normalizePath_def)
  have 8: "normalizePath P (Some (JStr ''/'')) = Inr ''/''"
    by (simp add: normalize_defs)
  from 1 2 3 4 5 6 7 8 show ?thesis
    by simp
qed

theorem normalizePath_examples_witness:
  "normalizePath examplePlatform (Some (JStr ''https://h/foo?q=1'')) = Inr ''/foo/'' \<and>
   normalizePath examplePlatform (Some (JStr ''//foo//'')) = Inr ''/foo/'' \<and>
   normalizePath examplePlatform (Some JNull) = Inr ''/''"
proof -
  have "url_pathname examplePlatform ''https://h/foo?q=1'' = Some ''/foo''"
    by (simp add: examplePlatform_def)
  from normalizePath_examples [OF this] show ?thesis
    by simp
qed

subsection \<open>Idempotence\<close>

lemma index_of_takeWhile:
  "index_of c xs = (if c \<in> set xs then int (length (takeWhile (\<lambda>x. x \<noteq> c) xs)) else -1)"
  by (induction xs) (auto simp: Let_def)

lemma nat_one_plus_int: "nat (1 + int n) = Suc n"
  by simp

lemma strip_query_hash_takeWhile:
  "strip_query_hash raw = takeWhile (\<lambda>c. c \<noteq> CHR ''?'' \<and> c \<noteq> CHR ''#'') raw"
proof (induction raw)
  case Nil
  show ?case by (simp add: strip_query_hash_def)
next
  case (Cons x xs)
  then show ?case
    by (auto simp: strip_query_hash_def index_of_takeWhile Let_def nat_one_plus_int
        split: if_splits list.splits)
qed

lemma strip_query_hash_clean:
  "CHR ''?'' \<notin> set (strip_query_hash raw) \<and> CHR ''#'' \<notin> set (strip_query_hash raw)"
  unfolding strip_query_hash_takeWhile
  by (auto dest: set_takeWhileD)

lemma strip_query_hash_id:
  "CHR ''?'' \<notin> set y \<Longrightarrow> CHR ''#'' \<notin> set y \<Longrightarrow> strip_query_hash y = y"
  unfolding strip_query_hash_takeWhile
  by (rule takeWhile_eq_all_conv [THEN iffD2]) auto

lemma set_collapse_slashes: "set (collapse_slashes xs) \<subseteq> set xs"
  by (induction xs rule: collapse_slashes.induct) auto

lemma collapse_slashes_hd:
  "xs \<noteq> [] \<Longrightarrow> collapse_slashes xs \<noteq> [] \<and> hd (collapse_slashes xs) = hd xs"
  by (induction xs rule: collapse_slashes.induct) auto

lemma no_double_slash_collapse: "no_double_slash (collapse_slashes xs)"
proof (induction xs rule: collapse_slashes.induct)
  case (1 a b cs)
  then show ?case
    using collapse_slashes_hd [of "b # cs"]
    by (cases "collapse_slashes (b # cs)") auto
qed simp_all

lemma collapse_slashes_id: "no_double_slash xs \<Longrightarrow> collapse_slashes xs = xs"
  by (induction xs rule: collapse_slashes.induct) auto

lemma no_double_slash_Cons:
  "no_double_slash xs \<Longrightarrow> \<not> startsWith_slash xs \<Longrightarrow> no_double_slash (c # xs)"
  by (cases xs) (auto simp: startsWith_slash_def)

lemma no_double_slash_snoc:
  "no_double_slash xs \<Longrightarrow> \<not> endsWith_slash xs \<Longrightarrow> no_double_slash (xs @ [c])"
  by (induction xs rule: no_double_slash.induct) (auto simp: endsWith_slash_def split: if_splits)

lemma path_key_tail:
  fixes r0 :: string
  defines "s1 \<equiv> collapse_slashes (strip_query_hash r0)"
  defines "s2 \<equiv> (if \<not> startsWith_slash s1 then ''/'' @ s1 else s1)"
  defines "s3 \<equiv> (if length s2 > 1 \<and> endsWith_slash s2 then s2
                   else if s2 \<noteq> ''/'' then s2 @ ''/'' else s2)"
  shows "path_key (if s3 = [] then ''/'' else s3)"
proof -
  have c1: "CHR ''?'' \<notin> set s1" "CHR ''#'' \<notin> set s1"
    using set_collapse_slashes [of "strip_query_hash r0"] strip_query_hash_clean [of r0]
    by (auto simp: s1_def)
  have n1: "no_double_slash s1"
    by (simp add: s1_def no_double_slash_collapse)
  have n2: "no_double_slash s2"
    using n1 by (simp add: s2_def no_double_slash_Cons)
  have h2: "s2 \<noteq> []" "hd s2 = CHR ''/''"
    by (auto simp: s2_def startsWith_slash_def split: list.splits)
  have c2: "CHR ''?'' \<notin> set s2" "CHR ''#'' \<notin> set s2"
    using c1 by (auto simp: s2_def)
  have len2: "s2 \<noteq> ''/'' \<Longrightarrow> length s2 > 1"
    using h2 by (cases s2) auto
  have n3: "no_double_slash s3"
  proof (cases "(length s2 > 1 \<and> endsWith_slash s2) \<or> s2 = ''/''")
    case True
    then show ?thesis
      using n2 by (auto simp: s3_def)
  next
    case False
    with len2 have "\<not> endsWith_slash s2" and "s3 = s2 @ ''/''"
      by (auto simp: s3_def)
    with n2 show ?thesis
      by (simp add: no_double_slash_snoc)
  qed
  have h3: "s3 \<noteq> []" "hd s3 = CHR ''/''"
    using h2 by (auto simp: s3_def)
  have c3: "CHR ''?'' \<notin> set s3" "CHR ''#'' \<notin> set s3"
    using c2 by (auto simp: s3_def)
  have l3: "last s3 = CHR ''/''"
    using h2 by (cases s2) (auto simp: s3_def endsWith_slash_def)
  show ?thesis
    using n3 h3 c3 l3 by (simp add: path_key_def)
qed

lemma dropWhile_hd: "xs \<noteq> [] \<Longrightarrow> \<not> P (hd xs) \<Longrightarrow> dropWhile P xs = xs"
  by (cases xs) auto

lemma trim_path_key: "path_key y \<Longrightarrow> trim y = y"
proof -
  assume k: "path_key y"
  have ws: "\<not> is_ws CHR ''/''"
    by (simp add: is_ws_def)
  from k have 1: "dropWhile is_ws y = y"
    by (intro dropWhile_hd) (auto simp: path_key_def ws)
  from k have 2: "dropWhile is_ws (rev y) = rev y"
    by (intro dropWhile_hd) (auto simp: path_key_def ws hd_rev)
  show "trim y = y"
    by (simp add: trim_def 1 2)
qed

lemma not_full_url_path_key: "path_key y \<Longrightarrow> \<not> is_full_url y"
  by (cases y) (auto simp: path_key_def is_full_url_def is_alpha_def)

lemma normalizePath_path_key:
  assumes "path_key y"
  shows "normalizePath P (Some (JStr y)) = Inr y"
proof -
  from assms have ne: "y \<noteq> []" and sw: "startsWith_slash y" and ew: "endsWith_slash y"
    by (auto simp: path_key_def startsWith_slash_def endsWith_slash_def split: list.splits)
  from assms have st: "strip_query_hash y = y"
    by (simp add: path_key_def strip_query_hash_id)
  from assms have co: "collapse_slashes y = y"
    by (simp add: path_key_def collapse_slashes_id)
  have one: "\<not> Suc 0 < length y \<Longrightarrow> y = ''/''"
    using assms by (cases y) (auto simp: path_key_def)
  show ?thesis
    using ne sw ew one
    by (simp add: normalizePath_def trim_path_key [OF assms] not_full_url_path_key [OF assms]
        st co)
qed

lemma normalizePath_string_path_key:
  "\<exists>y. normalizePath P (Some (JStr x)) = Inr y \<and> path_key y"
proof (cases "trim x = []")
  case True
  have "path_key ''/''"
    by (simp add: path_key_def)
  with True show ?thesis
    by (simp add: normalizePath_def)
next
  case False
  let ?r0 = "if is_full_url (trim x)
             then (case url_pathname P (trim x) of
                     Some p \<Rightarrow> (if p = [] then ''/'' else p)
                   | None \<Rightarrow> trim x)
             else trim x"
  show ?thesis
    using False path_key_tail [of ?r0]
    unfolding normalizePath_def Let_def
    by simp
qed

text \<open>
  Claim C3. The normalizer is idempotent: on every string it returns a key, and applied
  to that key it returns the same key, whatever the platform's URL parser does.
\<close>

theorem normalizePath_idempotent:
  "\<exists>y. normalizePath P (Some (JStr x)) = Inr y \<and> normalizePath P (Some (JStr y)) = Inr y"
  using normalizePath_string_path_key [of P x] normalizePath_path_key [of _ P]
  by blast

theorem normalizePath_idempotent_witness:
  "normalizePath examplePlatform (Some (JStr ''/a//b?c'')) = Inr ''/a/b/'' \<and>
   normalizePath examplePlatform (Some (JStr ''/a/b/'')) = Inr ''/a/b/''"
proof -
  have "normalizePath examplePlatform (Some (JStr ''/a//b?c'')) = Inr ''/a/b/''"
    by (simp add: normalize_defs)
  with normalizePath_idempotent [of examplePlatform "''/a//b?c''"] show ?thesis
    by auto
qed

section \<open>Properties of the credential exchanger\<close>

text \<open>
  Claim C6. In share mode, once the share endpoint has answered, the exchange fails when
  the answer has no (truthy) token. Otherwise the website identifier is
  \<^verbatim>\<open>websiteIdArg\<close> when that is given (anything but \<^verbatim>\<open>undefined\<close> and \<^verbatim>\<open>null\<close>, the
  empty string included), else the \<^verbatim>\<open>websiteId\<close> of the answer; the exchange fails with
  the missing-websiteId error exactly when the identifier so chosen is empty or absent,
  and otherwise returns it with headers that carry the share token.
\<close>

theorem getAuthHeaders_share:
  assumes "mode au = Share" and "share_lookup srv (shareId au) = Inr body"
  shows
    "(\<not> truthy (get_prop (Some body) ''token'') \<longrightarrow>
        getAuthHeaders P srv au websiteIdArg = Inl ShareMissingToken) \<and>
     (truthy (get_prop (Some body) ''token'') \<longrightarrow>
        (let chosen = (if websiteIdArg = None \<or> websiteIdArg = Some JNull
                       then get_prop (Some body) ''websiteId'' else websiteIdArg)
         in if truthy chosen
            then getAuthHeaders P srv au websiteIdArg =
                   Inr \<lparr>websiteId = chosen,
                        headers = [(''x-umami-share-token'', get_prop (Some body) ''token'')]\<rparr>
            else getAuthHeaders P srv au websiteIdArg = Inl ShareMissingWebsiteId))"
  using assms
  by (simp add: getAuthHeaders_def nullish_arg_or_env Let_def)

lemmas share_example_defs = shareServer_def shareBodyTW_def shareAuthS1_def

theorem getAuthHeaders_share_witness:
  "getAuthHeaders examplePlatform (shareServer shareBodyTW) shareAuthS1 None =
     Inr \<lparr>websiteId = Some (JStr ''W''),
          headers = [(''x-umami-share-token'', Some (JStr ''T''))]\<rparr> \<and>
   getAuthHeaders examplePlatform (shareServer shareBodyTW) shareAuthS1 (Some (JStr ''A'')) =
     Inr \<lparr>websiteId = Some (JStr ''A''),
          headers = [(''x-umami-share-token'', Some (JStr ''T''))]\<rparr> \<and>
   getAuthHeaders examplePlatform (shareServer (JObj [(''token'', JStr ''T'')])) shareAuthS1 None =
     Inl ShareMissingWebsiteId \<and>
   getAuthHeaders examplePlatform (shareServer (JObj [(''websiteId'', JStr ''W'')])) shareAuthS1
     (Some (JStr ''A'')) = Inl ShareMissingToken"
proof -
  have m: "mode shareAuthS1 = Share"
    by (simp add: shareAuthS1_def)
  have l: "share_lookup (shareServer b) (shareId shareAuthS1) = Inr b" for b
    by (simp add: shareServer_def)
  show ?thesis
    using getAuthHeaders_share [OF m l, of shareBodyTW examplePlatform None]
      getAuthHeaders_share [OF m l, of shareBodyTW examplePlatform "Some (JStr ''A'')"]
      getAuthHeaders_share [OF m l, of "JObj [(''token'', JStr ''T'')]" examplePlatform None]
      getAuthHeaders_share [OF m l, of "JObj [(''websiteId'', JStr ''W'')]" examplePlatform
        "Some (JStr ''A'')"]
    by (simp add: shareBodyTW_def Let_def)
qed

text \<open>
  The choice is made by \<^verbatim>\<open>??\<close> and the test by truthiness. So a \<^verbatim>\<open>websiteIdArg\<close> that
  is the empty string is chosen, and the exchange fails although the share response
  carries a website identifier.
\<close>

theorem getAuthHeaders_share_counterexample:
  "get_prop (Some shareBodyTW) ''websiteId'' = Some (JStr ''W'') \<and>
   truthy (get_prop (Some shareBodyTW) ''token'') \<and>
   getAuthHeaders examplePlatform (shareServer shareBodyTW) shareAuthS1 (Some (JStr '''')) =
     Inl ShareMissingWebsiteId"
  by (simp add: getAuthHeaders_def share_example_defs)

section \<open>Properties of the aggregator\<close>

subsection \<open>Conversions that throw\<close>

lemma to_string_error:
  "to_string P v = Inl e \<Longrightarrow> e = TypeError"
  "elems_to_strings P xs = Inl e \<Longrightarrow> e = TypeError"
  by (induction P v and P xs rule: to_string_elems_to_strings.induct)
    (auto split: sum.splits if_splits)

lemma to_string_stringable:
  "stringable v \<Longrightarrow> \<exists>s. to_string P v = Inr s"
  "stringable_elems xs \<Longrightarrow> \<exists>ss. elems_to_strings P xs = Inr ss"
  by (induction P v and P xs rule: to_string_elems_to_strings.induct) auto

lemma to_number_error: "to_number P v = Inl e \<Longrightarrow> e = TypeError"
  by (cases v) (auto split: sum.splits if_splits dest: to_string_error)

lemma to_number_stringable: "stringable v \<Longrightarrow> \<exists>n. to_number P v = Inr n"
  using to_string_stringable(1) [of v P]
  by (cases v) (auto split: sum.splits)

lemma normalizePath_error: "normalizePath P v = Inl e \<Longrightarrow> e = TypeError"
  by (auto simp: normalizePath_def Let_def split: option.splits json.splits sum.splits if_splits
      dest: to_string_error)

lemma normalizePath_stringable:
  "(case v of None \<Rightarrow> True | Some j \<Rightarrow> stringable j) \<Longrightarrow> \<exists>p. normalizePath P v = Inr p"
  using to_string_stringable(1) [of "the v" P]
  by (auto simp: normalizePath_def Let_def split: option.splits json.splits sum.splits)

lemma row_visitors_error: "row_visitors P row = Inl e \<Longrightarrow> e = TypeError"
  by (auto simp: row_visitors_def split: option.splits dest: to_number_error)

lemma row_visitors_convertible:
  "convertible_row row \<Longrightarrow> \<exists>n. row_visitors P row = Inr n"
  using to_number_stringable [of _ P]
  by (cases "get_prop (Some row) ''visitors''")
    (auto simp: row_visitors_def convertible_row_def nullish_arg_or_env)

lemma accumulate_row_convertible:
  "convertible_row row \<Longrightarrow> \<exists>t'. accumulate_row P t row = Inr t'"
  using row_visitors_convertible [of row P]
    normalizePath_stringable [of "get_prop (Some row) ''name''" P]
  by (auto simp: accumulate_row_def convertible_row_def Let_def split: sum.splits jsnum.splits)

lemma accumulate_convertible:
  "\<forall>row\<in>set rows. convertible_row row \<Longrightarrow> \<exists>t'. accumulate P t rows = Inr t'"
proof (induction rows arbitrary: t)
  case Nil
  show ?case by simp
next
  case (Cons row rows)
  then obtain t1 where "accumulate_row P t row = Inr t1"
    using accumulate_row_convertible [of row P t] by auto
  with Cons show ?case
    by simp
qed

subsection \<open>Rows commute\<close>

lemma accumulate_append:
  "accumulate P t (xs @ ys) =
     (case accumulate P t xs of Inl e \<Rightarrow> Inl e | Inr t' \<Rightarrow> accumulate P t' ys)"
  by (induction xs arbitrary: t) (auto split: sum.splits)

lemma accumulatePages_concat: "accumulatePages P t pages = accumulate P t (concat pages)"
  by (induction pages arbitrary: t) (auto simp: accumulate_append split: sum.splits)

lemma fold_row_step_Inl: "fold (row_step P) rows (Inl e) = Inl e"
  by (induction rows) (auto simp: row_step_def)

lemma accumulate_fold: "accumulate P t rows = fold (row_step P) rows (Inr t)"
  by (induction rows arbitrary: t) (auto simp: row_step_def fold_row_step_Inl split: sum.splits)

text \<open>One row, as an effect that does not depend on the totals.\<close>

lemma accumulate_row_cases:
  "accumulate_row P t row =
     (case row_visitors P row of
        Inl e \<Rightarrow> Inl TypeError
      | Inr (Fin v) \<Rightarrow>
          (case normalizePath P (get_prop (Some row) ''name'') of
             Inl e \<Rightarrow> Inl TypeError
           | Inr p \<Rightarrow> Inr (t(p \<mapsto> total_of t p + v)))
      | Inr _ \<Rightarrow> Inr t)"
  by (auto simp: accumulate_row_def total_of_def Let_def split: sum.splits jsnum.splits
      dest: row_visitors_error normalizePath_error)

lemma row_step_commute: "row_step P r \<circ> row_step P s = row_step P s \<circ> row_step P r"
proof (rule ext)
  fix st
  show "(row_step P r \<circ> row_step P s) st = (row_step P s \<circ> row_step P r) st"
  proof (cases st)
    case (Inl e)
    then show ?thesis
      by (simp add: row_step_def)
  next
    case (Inr t)
    then show ?thesis
      by (auto simp: row_step_def accumulate_row_cases total_of_def fun_upd_twist
          split: sum.splits jsnum.splits)
  qed
qed

lemma accumulate_mset:
  assumes "mset rows = mset rows'"
  shows "accumulate P t rows = accumulate P t rows'"
  unfolding accumulate_fold
  by (rule arg_cong [where f = "\<lambda>f. f (Inr t)"])
    (rule fold_multiset_equiv [OF row_step_commute assms])

lemmas row_example_defs = mk_row_def accumulate_row_def row_visitors_def examplePlatform_def

subsection \<open>Commutativity\<close>

text \<open>
  Claim C8. Aggregation is a commutative fold: two sequences of pages that hold the same
  multiset of rows, in whatever order and however cut into pages, give the same result
  from the same totals, in exact arithmetic: the same totals, or in both cases the
  exception of a conversion.
\<close>

theorem accumulatePages_commutative:
  assumes "mset (concat pages) = mset (concat pages')"
  shows "accumulatePages P t pages = accumulatePages P t pages'"
  using accumulate_mset [OF assms] by (simp add: accumulatePages_concat)

theorem accumulatePages_commutative_witness:
  "accumulatePages examplePlatform Map.empty
     [[mk_row ''/a'' (JNum (Fin 3)), mk_row ''/b'' (JNum (Fin 1))], [mk_row ''/a/'' (JNum (Fin 2))]]
   = Inr [''/b/'' \<mapsto> 1, ''/a/'' \<mapsto> 5] \<and>
   accumulatePages examplePlatform Map.empty
     [[mk_row ''/a/'' (JNum (Fin 2))], [mk_row ''/b'' (JNum (Fin 1))], [mk_row ''/a'' (JNum (Fin 3))]]
   = Inr [''/b/'' \<mapsto> 1, ''/a/'' \<mapsto> 5]"
proof -
  let ?A = "[[mk_row ''/a'' (JNum (Fin 3)), mk_row ''/b'' (JNum (Fin 1))],
             [mk_row ''/a/'' (JNum (Fin 2))]]"
  let ?B = "[[mk_row ''/a/'' (JNum (Fin 2))], [mk_row ''/b'' (JNum (Fin 1))],
             [mk_row ''/a'' (JNum (Fin 3))]]"
  have m: "mset (concat ?A) = mset (concat ?B)"
    by simp
  have a: "accumulatePages examplePlatform Map.empty ?A = Inr [''/b/'' \<mapsto> 1, ''/a/'' \<mapsto> 5]"
    by (simp add: row_example_defs normalize_defs)
  from accumulatePages_commutative [OF m, of examplePlatform Map.empty] a show ?thesis
    by simp
qed

subsection \<open>Malformed rows\<close>

lemma accumulate_row_skipped: "skipped_row P row \<Longrightarrow> accumulate_row P t row = Inr t"
  by (auto simp: skipped_row_def accumulate_row_cases split: sum.splits jsnum.splits)

lemma accumulate_filter_skipped:
  "accumulate P t rows = accumulate P t (filter (\<lambda>r. \<not> skipped_row P r) rows)"
  by (induction rows arbitrary: t) (auto simp: accumulate_row_skipped split: sum.splits)

lemma row_visitors_absent:
  "get_prop (Some row) ''visitors'' = None \<Longrightarrow> row_visitors P row = Inr (Fin 0)"
  by (simp add: row_visitors_def)

lemma accumulate_row_absent:
  "get_prop (Some row) ''visitors'' = None \<Longrightarrow>
   normalizePath P (get_prop (Some row) ''name'') = Inr p \<Longrightarrow>
   accumulate_row P t row = Inr (t(p \<mapsto> total_of t p))"
  by (simp add: accumulate_row_cases row_visitors_absent)

lemma accumulate_row_total:
  "accumulate_row P t row = Inr t' \<Longrightarrow> total_of t' p = total_of t p + row_adds P row p"
  by (auto simp: accumulate_row_cases row_adds_def total_of_def split: sum.splits jsnum.splits)

lemma accumulate_total:
  "accumulate P t rows = Inr t' \<Longrightarrow>
   total_of t' p = total_of t p + sum_list (map (\<lambda>r. row_adds P r p) rows)"
proof (induction rows arbitrary: t)
  case Nil
  then show ?case by simp
next
  case (Cons row rows)
  then obtain t1 where 1: "accumulate_row P t row = Inr t1" and 2: "accumulate P t1 rows = Inr t'"
    by (auto split: sum.splits)
  from Cons.IH [OF 2] accumulate_row_total [OF 1, of p] show ?case
    by simp
qed

text \<open>
  The rows that the aggregator tolerates. A row whose visitors convert to a number that
  is not finite is skipped: it leaves the totals as they are, and the page gives what it
  gives without such rows. A row without visitors adds zero to the total of its path.
  When the page succeeds, the total of every path has grown by the sum of what its rows
  add. The page succeeds whenever \<^verbatim>\<open>name\<close> and \<^verbatim>\<open>visitors\<close> of every row are absent or
  values whose conversion to a string cannot throw.
\<close>

theorem accumulate_tolerates_malformed_rows:
  "(skipped_row P row \<longrightarrow> accumulate_row P t row = Inr t) \<and>
   accumulate P t rows = accumulate P t (filter (\<lambda>r. \<not> skipped_row P r) rows) \<and>
   (get_prop (Some row) ''visitors'' = None \<and>
    normalizePath P (get_prop (Some row) ''name'') = Inr p \<longrightarrow>
      accumulate_row P t row = Inr (t(p \<mapsto> total_of t p))) \<and>
   (\<forall>t'. accumulate P t rows = Inr t' \<longrightarrow>
      (\<forall>q. total_of t' q = total_of t q + sum_list (map (\<lambda>r. row_adds P r q) rows))) \<and>
   ((\<forall>r\<in>set rows. convertible_row r) \<longrightarrow> (\<exists>t'. accumulate P t rows = Inr t'))"
  using accumulate_row_skipped [of P row t] accumulate_filter_skipped [of P t rows]
    accumulate_row_absent [of row P p t] accumulate_total [of P t rows]
    accumulate_convertible [of rows P t]
  by blast

theorem accumulate_tolerates_malformed_rows_witness:
  "accumulate examplePlatform Map.empty
     [mk_row ''/a'' (JNum (Fin 3)), mk_row ''/a'' (JStr ''abc''), JObj [(''name'', JStr ''/a/'')],
      mk_row ''a'' (JStr ''7'')] = Inr [''/a/'' \<mapsto> 10] \<and>
   accumulate_row examplePlatform [''/a/'' \<mapsto> 3] (mk_row ''/a'' (JStr ''abc'')) =
     Inr [''/a/'' \<mapsto> 3] \<and>
   accumulate_row examplePlatform [''/a/'' \<mapsto> 3] (JObj [(''name'', JStr ''/a/'')]) =
     Inr [''/a/'' \<mapsto> 3]"
proof -
  let ?rows = "[mk_row ''/a'' (JNum (Fin 3)), mk_row ''/a'' (JStr ''abc''),
                JObj [(''name'', JStr ''/a/'')], mk_row ''a'' (JStr ''7'')]"
  let ?bad = "mk_row ''/a'' (JStr ''abc'')"
  let ?none = "JObj [(''name'', JStr ''/a/'')]"
  have s: "skipped_row examplePlatform ?bad"
    by (simp add: skipped_row_def row_example_defs)
  have c: "\<forall>r\<in>set ?rows. convertible_row r"
    by (simp add: convertible_row_def mk_row_def)
  have n: "get_prop (Some ?none) ''visitors'' = None \<and>
           normalizePath examplePlatform (get_prop (Some ?none) ''name'') = Inr ''/a/''"
    by (simp add: normalize_defs)
  have v: "accumulate examplePlatform Map.empty
             (filter (\<lambda>r. \<not> skipped_row examplePlatform r) ?rows) = Inr [''/a/'' \<mapsto> 10]"
    by (simp add: skipped_row_def row_example_defs normalize_defs)
  have t: "total_of [''/a/'' \<mapsto> 3] ''/a/'' = 3"
    by (simp add: total_of_def)
  show ?thesis
    using accumulate_tolerates_malformed_rows
      [of examplePlatform ?bad "[''/a/'' \<mapsto> 3]" ?rows "''/a/''"]
      accumulate_tolerates_malformed_rows
      [of examplePlatform ?none "[''/a/'' \<mapsto> 3]" ?rows "''/a/''"]
      accumulate_tolerates_malformed_rows
      [of examplePlatform ?bad Map.empty ?rows "''/a/''"]
      s c n v t
    by simp
qed

text \<open>
  Claim C7. A row whose visitors do not parse to a finite number is skipped without
  aborting the page or the run, and aggregation never fails on any row. The program does
  not do this for a row whose visitors are an object with an own property \<^verbatim>\<open>toString\<close>:
  \<^verbatim>\<open>Number\<close> throws at line 282, nothing catches the exception, and the page and the run
  end with it, the rows already summed being lost.
\<close>

theorem accumulate_throws_on_object_visitors:
  "accumulate_row examplePlatform Map.empty
     (mk_row ''/a'' (JObj [(''toString'', JNum (Fin 1))])) = Inl TypeError \<and>
   accumulate examplePlatform Map.empty
     [mk_row ''/a'' (JNum (Fin 3)), mk_row ''/a'' (JObj [(''toString'', JNum (Fin 1))])] =
     Inl TypeError \<and>
   pageLoop examplePlatform objectVisitorsServer 500 0 0 Map.empty = Some (Inl TypeError)"
proof -
  have 1: "accumulate_row examplePlatform Map.empty
     (mk_row ''/a'' (JObj [(''toString'', JNum (Fin 1))])) = Inl TypeError"
    by (simp add: row_example_defs)
  have 2: "accumulate examplePlatform Map.empty
     [mk_row ''/a'' (JNum (Fin 3)), mk_row ''/a'' (JObj [(''toString'', JNum (Fin 1))])] =
     Inl TypeError"
    by (simp add: row_example_defs normalize_defs)
  have "pageLoop examplePlatform objectVisitorsServer 500 0 0 Map.empty = Some (Inl TypeError)"
    by (subst pageLoop.simps)
      (simp add: objectVisitorsServer_def extractRows_def row_example_defs normalize_defs)
  with 1 2 show ?thesis
    by (intro conjI)
qed

subsection \<open>Sign and growth of the totals\<close>

lemma accumulate_row_nonneg_mono:
  assumes "\<forall>p v. t p = Some v \<longrightarrow> 0 \<le> v" and "\<not> negative_row P row"
    and "accumulate_row P t row = Inr t'"
  shows "(\<forall>p v. t' p = Some v \<longrightarrow> 0 \<le> v) \<and>
         (\<forall>p v. t p = Some v \<longrightarrow> (\<exists>v'. t' p = Some v' \<and> v \<le> v'))"
  using assms
  by (auto simp: accumulate_row_cases negative_row_def total_of_def
      split: sum.splits jsnum.splits option.splits if_splits)

lemma accumulate_nonneg_mono:
  assumes "\<forall>p v. t p = Some v \<longrightarrow> 0 \<le> v" and "\<forall>row\<in>set rows. \<not> negative_row P row"
    and "accumulate P t rows = Inr t'"
  shows "(\<forall>p v. t' p = Some v \<longrightarrow> 0 \<le> v) \<and>
         (\<forall>p v. t p = Some v \<longrightarrow> (\<exists>v'. t' p = Some v' \<and> v \<le> v'))"
  using assms
proof (induction rows arbitrary: t)
  case Nil
  then show ?case by simp
next
  case (Cons row rows)
  from Cons.prems(3) obtain t1 where 1: "accumulate_row P t row = Inr t1"
    and 2: "accumulate P t1 rows = Inr t'"
    by (auto split: sum.splits)
  from Cons.prems(2) have nr: "\<not> negative_row P row" and nrs: "\<forall>r\<in>set rows. \<not> negative_row P r"
    by simp_all
  note s1 = accumulate_row_nonneg_mono [OF Cons.prems(1) nr 1]
  from s1 have n1: "\<forall>p v. t1 p = Some v \<longrightarrow> 0 \<le> v"
    by blast
  note s2 = Cons.IH [OF n1 nrs 2]
  show ?case
  proof (intro conjI allI impI)
    fix p v assume "t' p = Some v"
    with s2 show "0 \<le> v" by blast
  next
    fix p v assume "t p = Some v"
    with s1 obtain v1 where "t1 p = Some v1" "v \<le> v1" by blast
    moreover with s2 obtain v2 where "t' p = Some v2" "v1 \<le> v2" by blast
    ultimately show "\<exists>v'. t' p = Some v' \<and> v \<le> v'" by auto
  qed
qed

text \<open>
  Claim C4. When no row that counts has a negative number of visitors, every value of
  the totals is non-negative and no value decreases over accumulation steps: from totals
  with non-negative values, any further pages lead to totals with non-negative values in
  which every path has at least the total it had.
\<close>

theorem totals_nonnegative_monotone:
  assumes "\<forall>p v. t p = Some v \<longrightarrow> 0 \<le> v"
    and "\<forall>row\<in>set (concat pages). \<not> negative_row P row"
    and "accumulatePages P t pages = Inr t'"
  shows "(\<forall>p v. t' p = Some v \<longrightarrow> 0 \<le> v) \<and>
         (\<forall>p v. t p = Some v \<longrightarrow> (\<exists>v'. t' p = Some v' \<and> v \<le> v'))"
  using accumulate_nonneg_mono [OF assms(1,2)] assms(3)
  by (simp add: accumulatePages_concat)

theorem totals_nonnegative_monotone_witness:
  "accumulatePages examplePlatform [''/a/'' \<mapsto> 3]
     [[mk_row ''/a'' (JNum (Fin 2))], [mk_row ''/b'' (JNum (Fin 0))]] =
     Inr [''/a/'' \<mapsto> 5, ''/b/'' \<mapsto> 0] \<and>
   (\<exists>v'. [''/a/'' \<mapsto> 5, ''/b/'' \<mapsto> (0::real)] ''/a/'' = Some v' \<and> 3 \<le> v')"
proof -
  let ?pages = "[[mk_row ''/a'' (JNum (Fin 2))], [mk_row ''/b'' (JNum (Fin 0))]]"
  have 1: "\<forall>p v. [''/a/'' \<mapsto> (3::real)] p = Some v \<longrightarrow> 0 \<le> v"
    by simp
  have 2: "\<forall>row\<in>set (concat ?pages). \<not> negative_row examplePlatform row"
    by (simp add: negative_row_def row_example_defs)
  have 3: "accumulatePages examplePlatform [''/a/'' \<mapsto> 3] ?pages =
             Inr [''/a/'' \<mapsto> 5, ''/b/'' \<mapsto> 0]"
    by (simp add: row_example_defs normalize_defs)
  from totals_nonnegative_monotone [OF 1 2 3] 3 show ?thesis
    by simp
qed

text \<open>
  As the claim has it, for every sequence of rows. The program adds any finite number:
  a page with a negative number of visitors after a page with a positive one lowers the
  total of the path, here below zero.
\<close>

theorem totals_nonnegative_monotone_counterexample:
  "accumulatePages examplePlatform Map.empty [[mk_row ''/a'' (JNum (Fin 3))]] =
     Inr [''/a/'' \<mapsto> 3] \<and>
   accumulatePages examplePlatform Map.empty
     [[mk_row ''/a'' (JNum (Fin 3))], [mk_row ''/a'' (JNum (Fin (- 5)))]] =
     Inr [''/a/'' \<mapsto> - 2]"
  by (simp add: row_example_defs normalize_defs)

subsection \<open>A page of equal rows\<close>



section \<open>Properties of the pagination loop\<close>

subsection \<open>The cursor\<close>








subsection \<open>Turns of the loop\<close>






subsection \<open>Runs that end\<close>






subsection \<open>Pages of 500, 500, 3 and 0 rows\<close>






end
